theory Spec2Isabelle
  imports Complex_Main
begin

section \<open>Rasters, images and their properties\<close>

text \<open>
  The script MCD10A1.js is written against the Earth Engine image library. Every
  operation it uses works cell by cell, so a raster is a function from cells to
  optional values: \<open>None\<close> is a masked (no-data) cell, \<open>Some v\<close> a valid cell of
  value \<open>v\<close>. The cell type \<open>'c\<close> is left open.

  The source file holds two copies of the script, a current one (bands
  \<open>NDSI_Snow_Cover\<close>) followed by an older one; the model follows the current one.

  An image carries properties besides its bands; the only property the script reads or
  writes is \<open>system:time_start\<close>. It is optional: an image the script computes has it
  only where the script sets it.
\<close>

type_synonym ('c, 'v) raster = "'c \<Rightarrow> 'v option"

record element =
  time_start :: "int option"

record ('c, 'v) image = element +
  band :: "('c, 'v) raster"

text \<open>
  An image of two bands. The script builds four of them: the joined sensor image
  (\<open>NDSI_Snow_Cover\<close>, \<open>NDSI_Snow_Cover_1\<close>), the result of the minMax reducer
  (\<open>constant_min\<close>, \<open>constant_max\<close>), the joined yearly image (\<open>snowmelt\<close>,
  \<open>snowacc\<close>) and the linear fit (\<open>scale\<close>, \<open>offset\<close>); \<open>band1\<close> is the first
  band of each pair and \<open>band2\<close> the second.
\<close>

record ('c, 'v) image2 = element +
  band1 :: "('c, 'v) raster"
  band2 :: "('c, 'v) raster"

datatype error = NullElement | NullDate | UndefinedCollection | BandNotFound

subsection \<open>The library's cell-wise operations\<close>

text \<open>An expression of one variable: a masked cell stays masked.\<close>

definition expression :: "('a \<Rightarrow> 'b) \<Rightarrow> ('c, 'a) raster \<Rightarrow> ('c, 'b) raster" where
  "expression f r = (\<lambda>c. map_option f (r c))"

text \<open>\<open>unmask v\<close>: a masked cell becomes the valid value \<open>v\<close>.\<close>

definition unmask :: "'v \<Rightarrow> ('c, 'v) raster \<Rightarrow> ('c, 'v) raster" where
  "unmask v r = (\<lambda>c. Some (case r c of None \<Rightarrow> v | Some x \<Rightarrow> x))"

text \<open>A binary operation: the result is masked where either operand is.\<close>

definition binop ::
  "('a \<Rightarrow> 'b \<Rightarrow> 'd) \<Rightarrow> ('c, 'a) raster \<Rightarrow> ('c, 'b) raster \<Rightarrow> ('c, 'd) raster" where
  "binop f r s =
     (\<lambda>c. case r c of None \<Rightarrow> None
          | Some x \<Rightarrow> (case s c of None \<Rightarrow> None | Some y \<Rightarrow> Some (f x y)))"

definition max_img :: "('c, int) raster \<Rightarrow> ('c, int) raster \<Rightarrow> ('c, int) raster" where
  "max_img = binop max"

definition subtract :: "('c, int) raster \<Rightarrow> ('c, int) raster \<Rightarrow> ('c, int) raster" where
  "subtract = binop (\<lambda>x y. x - y)"

definition multiply :: "('c, 'v::times) raster \<Rightarrow> ('c, 'v) raster \<Rightarrow> ('c, 'v) raster" where
  "multiply = binop (\<lambda>x y. x * y)"

text \<open>Comparisons with a constant give 1 or 0.\<close>

definition neq :: "('c, int) raster \<Rightarrow> int \<Rightarrow> ('c, int) raster" where
  "neq r k = expression (\<lambda>x. if x \<noteq> k then 1 else 0) r"

definition eq_img :: "('c, int) raster \<Rightarrow> int \<Rightarrow> ('c, int) raster" where
  "eq_img r k = expression (\<lambda>x. if x = k then 1 else 0) r"

definition lt :: "('c, rat) raster \<Rightarrow> rat \<Rightarrow> ('c, int) raster" where
  "lt r k = expression (\<lambda>x. if x < k then 1 else 0) r"

text \<open>
  \<open>updateMask\<close>: a cell stays valid only where it was valid and the mask image is
  valid and non-zero.
\<close>

definition updateMask :: "('c, 'v) raster \<Rightarrow> ('c, int) raster \<Rightarrow> ('c, 'v) raster" where
  "updateMask r m =
     (\<lambda>c. case r c of None \<Rightarrow> None
          | Some x \<Rightarrow> (case m c of None \<Rightarrow> None
                       | Some k \<Rightarrow> if k \<noteq> 0 then Some x else None))"

text \<open>
  \<open>image.mask(m)\<close> sets the mask: the result is valid exactly where \<open>m\<close> is valid and
  non-zero, and a cell that was masked before is filled with zero.
\<close>

definition mask_with :: "('c, 'v::zero) raster \<Rightarrow> ('c, int) raster \<Rightarrow> ('c, 'v) raster" where
  "mask_with r m =
     (\<lambda>c. case m c of None \<Rightarrow> None
          | Some k \<Rightarrow> if k \<noteq> 0 then Some (case r c of None \<Rightarrow> 0 | Some x \<Rightarrow> x) else None)"

section \<open>The functions of the script\<close>

subsection \<open>maxVal: fusing the two sensors\<close>

definition maxVal :: "('c, int) image2 \<Rightarrow> ('c, int) image" where
  "maxVal img =
     (let startTime = time_start img;
          b1c = expression (\<lambda>b1. if b1 = 0 then - 10 else b1) (band1 img);
          b2c = expression (\<lambda>b1. if b1 = 0 then - 10 else b1) (band2 img);
          maxval = max_img (unmask 0 b1c) (unmask 0 b2c);
          maxval = updateMask maxval (neq maxval 0);
          maxval = expression (\<lambda>b1. if b1 = - 10 then 0 else b1) maxval
      in \<lparr>time_start = startTime, band = maxval\<rparr>)"

subsection \<open>difference: accumulation day minus melt day\<close>

definition difference :: "('c, int) image2 \<Rightarrow> ('c, int) image" where
  "difference img =
     (let b1 = band1 img;
          b2 = band2 img;
          startTime = time_start img
      in \<lparr>time_start = startTime, band = subtract b2 b1\<rparr>)"

subsection \<open>returnDoy: the day of year of a snow-free cell\<close>

text \<open>
  Timestamps are milliseconds. \<open>ee.Date.difference(start, 'day')\<close> is the number of
  days between two dates as a fraction; it is a rational here. \<open>toInt\<close> casts to a
  signed 32-bit integer: the fraction is dropped and the range is kept. On the whole
  numbers of days of a daily series every reading of the cast gives the same integer.
\<close>

definition msPerDay :: int where
  "msPerDay = 86400000"

definition date_difference_day :: "int \<Rightarrow> int \<Rightarrow> rat" where
  "date_difference_day d start = rat_of_int (d - start) / rat_of_int msPerDay"

definition toInt :: "rat \<Rightarrow> int" where
  "toInt q =
     (let t = (if 0 \<le> q then \<lfloor>q\<rfloor> else \<lceil>q\<rceil>)
      in max (- 2147483648) (min 2147483647 t))"

text \<open>The variable \<open>replacement\<close> of returnDoy, for the day number \<open>doy\<close>.\<close>

definition replacement :: "rat \<Rightarrow> ('c, int) raster \<Rightarrow> ('c, int) raster" where
  "replacement doy SNOW =
     expression (\<lambda>s. toInt (if rat_of_int s \<le> 5 then doy else 9999)) SNOW"

text \<open>
  The script's global \<open>start\<close> is an argument. Reading the date of an image that has
  no \<open>system:time_start\<close> fails. The script sets no property on the result.
\<close>

definition returnDoy :: "int \<Rightarrow> ('c, int) image \<Rightarrow> error + ('c, int) image" where
  "returnDoy start img =
     (case time_start img of
        None \<Rightarrow> Inl NullDate
      | Some t \<Rightarrow>
          (let doy = date_difference_day t start + 1;
               repl = replacement doy (band img);
               withObs = neq repl 9999
           in Inr \<lparr>time_start = None, band = updateMask repl withObs\<rparr>))"

text \<open>
  Bands have names. returnDoy selects the band \<open>NDSI_Snow_Cover\<close> of its argument
  (line 111), and the definition above is what it does with the band it selected.
  Every image the script maps returnDoy over is a fused image, whose band has that
  name. The band of the result is named \<open>constant\<close>: the minMax reducer names its
  outputs after it, \<open>constant_min\<close> and \<open>constant_max\<close> (lines 213 and 219).
  \<open>returnDoy_named\<close> is returnDoy on an image that carries the name of its band: the
  date is read first (line 106), then the band is selected, and selecting a band the
  image does not have fails.
\<close>

record ('c, 'v) named_image = "('c, 'v) image" +
  bandName :: string

definition select_band :: "string \<Rightarrow> ('c, 'v) named_image \<Rightarrow> error + ('c, 'v) image" where
  "select_band nm img =
     (if bandName img = nm then Inr \<lparr>time_start = time_start img, band = band img\<rparr>
      else Inl BandNotFound)"

definition returnDoy_named ::
  "int \<Rightarrow> ('c, int) named_image \<Rightarrow> error + ('c, int) named_image" where
  "returnDoy_named start img =
     (case time_start img of
        None \<Rightarrow> Inl NullDate
      | Some t \<Rightarrow>
          (case select_band ''NDSI_Snow_Cover'' img of
             Inl e \<Rightarrow> Inl e
           | Inr SNOW \<Rightarrow>
               (case returnDoy start SNOW of
                  Inl e \<Rightarrow> Inl e
                | Inr ev \<Rightarrow>
                    Inr \<lparr>time_start = time_start ev, band = band ev,
                         bandName = ''constant''\<rparr>)))"

subsection \<open>The inner join on timestamps\<close>

text \<open>
  \<open>filterTimeEq\<close> keeps a pair of elements whose \<open>system:time_start\<close> are equal; an
  element without the property matches nothing. \<open>ee.Join.inner().apply\<close> returns one
  feature per matching pair: its \<open>primary\<close> is the first component, its
  \<open>secondary\<close> the second.
\<close>

definition filterTimeEq :: "'a element_scheme \<Rightarrow> 'b element_scheme \<Rightarrow> bool" where
  "filterTimeEq l r =
     (case time_start l of None \<Rightarrow> False | Some t \<Rightarrow> time_start r = Some t)"

definition innerJoin_apply :: "'p list \<Rightarrow> 's list \<Rightarrow> ('p \<Rightarrow> 's \<Rightarrow> bool) \<Rightarrow> ('p \<times> 's) list" where
  "innerJoin_apply primary secondary cond =
     concat (map (\<lambda>p. map (Pair p) (filter (cond p) secondary)) primary)"

text \<open>\<open>ee.Image.cat\<close> keeps the properties of its first image.\<close>

definition concatBands :: "('c, 'v) image \<times> ('c, 'v) image \<Rightarrow> ('c, 'v) image2" where
  "concatBands feature =
     \<lparr>time_start = time_start (fst feature),
      band1 = band (fst feature), band2 = band (snd feature)\<rparr>"

subsection \<open>Reducing a collection cell by cell\<close>

text \<open>A reducer sees, for each cell, the values of the images in which the cell is valid.\<close>

definition unmasked_values :: "('c, 'v) image list \<Rightarrow> 'c \<Rightarrow> 'v list" where
  "unmasked_values col c =
     concat (map (\<lambda>i. case band i c of None \<Rightarrow> [] | Some v \<Rightarrow> [v]) col)"

fun minMax_add :: "(int \<times> int) option \<Rightarrow> int \<Rightarrow> (int \<times> int) option" where
  "minMax_add None v = Some (v, v)"
| "minMax_add (Some (lo, hi)) v = Some (min lo v, max hi v)"

definition minMax :: "int list \<Rightarrow> (int \<times> int) option" where
  "minMax vs = foldl minMax_add None vs"

text \<open>
  \<open>reduce(ee.Reducer.minMax())\<close>: the bands \<open>constant_min\<close> and \<open>constant_max\<close>,
  masked in a cell that no image has a value for.
\<close>

definition reduce_minMax :: "('c, int) image list \<Rightarrow> ('c, int) image2" where
  "reduce_minMax col =
     \<lparr>time_start = None,
      band1 = (\<lambda>c. map_option fst (minMax (unmasked_values col c))),
      band2 = (\<lambda>c. map_option snd (minMax (unmasked_values col c)))\<rparr>"

text \<open>
  The median of a non-empty list of values: the middle one of the sorted list, or the
  mean of the two middle ones.
\<close>

definition median_list :: "int list \<Rightarrow> rat" where
  "median_list vs =
     (let s = sort vs; n = length s
      in if odd n then rat_of_int (s ! (n div 2))
         else (rat_of_int (s ! (n div 2 - 1)) + rat_of_int (s ! (n div 2))) / 2)"

definition median :: "('c, int) image list \<Rightarrow> ('c, rat) raster" where
  "median col =
     (\<lambda>c. let vs = unmasked_values col c
          in if vs = [] then None else Some (median_list vs))"

text \<open>
  \<open>createTimeBand\<close> adds the image's own \<open>system:time_start\<close> as a second, constant
  band. \<open>ee.Reducer.linearFit()\<close> is the library's least-squares fit; it is the
  argument \<open>fit\<close>, from the (time, snowmelt) pairs of a cell to its scale and offset.
\<close>

definition createTimeBand :: "('c, int) image \<Rightarrow> ('c, int) image2" where
  "createTimeBand img =
     \<lparr>time_start = time_start img, band1 = band img, band2 = (\<lambda>c. time_start img)\<rparr>"

definition reduce_linearFit ::
  "((int \<times> int) list \<Rightarrow> (rat \<times> rat) option) \<Rightarrow> ('c, int) image2 list \<Rightarrow> ('c, rat) image2" where
  "reduce_linearFit fit col =
     (let pairs = (\<lambda>c. concat (map (\<lambda>i.
            case band2 i c of None \<Rightarrow> []
            | Some x \<Rightarrow> (case band1 i c of None \<Rightarrow> [] | Some y \<Rightarrow> [(x, y)])) col))
      in \<lparr>time_start = None,
          band1 = (\<lambda>c. map_option fst (fit (pairs c))),
          band2 = (\<lambda>c. map_option snd (fit (pairs c)))\<rparr>)"

subsection \<open>One year of the main loop\<close>

text \<open>Mapping a function that can fail over a collection fails at the first failure.\<close>

fun map_collection :: "('a \<Rightarrow> error + 'b) \<Rightarrow> 'a list \<Rightarrow> error + 'b list" where
  "map_collection f [] = Inr []"
| "map_collection f (x # xs) =
     (case f x of
        Inl e \<Rightarrow> Inl e
      | Inr y \<Rightarrow> (case map_collection f xs of Inl e \<Rightarrow> Inl e | Inr ys \<Rightarrow> Inr (y # ys)))"

definition yearlyCollection ::
  "('c, int) image list \<Rightarrow> ('c, int) image list \<Rightarrow> ('c, int) image list" where
  "yearlyCollection terraCollection aquaCollection =
     (let innerJoinedCollection = innerJoin_apply terraCollection aquaCollection filterTimeEq;
          joinedCollection = map concatBands innerJoinedCollection
      in map maxVal joinedCollection)"

text \<open>
  \<open>start\<close> is read from the first image of the year; an empty collection has no first
  image to read it from.
\<close>

definition doyCollection :: "('c, int) image list \<Rightarrow> error + ('c, int) image list" where
  "doyCollection yearly =
     (case yearly of
        [] \<Rightarrow> Inl NullElement
      | first # _ \<Rightarrow>
          (case time_start first of
             None \<Rightarrow> Inl NullDate
           | Some start \<Rightarrow> map_collection (returnDoy start) yearly))"

definition snowMeltAcc :: "('c, int) image list \<Rightarrow> ('c, int) image2" where
  "snowMeltAcc doys =
     (let r = reduce_minMax doys
      in r\<lparr>band1 := unmask 366 (band1 r), band2 := unmask 366 (band2 r)\<rparr>)"

definition year_summary ::
  "('c, int) image list \<Rightarrow> ('c, int) image list \<Rightarrow> error + ('c, int) image2" where
  "year_summary terraCollection aquaCollection =
     (case doyCollection (yearlyCollection terraCollection aquaCollection) of
        Inl e \<Rightarrow> Inl e
      | Inr doys \<Rightarrow> Inr (snowMeltAcc doys))"

text \<open>
  The melt and accumulation rasters of one year, computed on their own from that
  year's two sensor collections (masked everywhere when the year fails).
\<close>

definition year_melt :: "('c, int) image list \<Rightarrow> ('c, int) image list \<Rightarrow> ('c, int) raster" where
  "year_melt terraCollection aquaCollection =
     (case year_summary terraCollection aquaCollection of
        Inl e \<Rightarrow> (\<lambda>c. None)
      | Inr sma \<Rightarrow> band1 sma)"

definition year_acc :: "('c, int) image list \<Rightarrow> ('c, int) image list \<Rightarrow> ('c, int) raster" where
  "year_acc terraCollection aquaCollection =
     (case year_summary terraCollection aquaCollection of
        Inl e \<Rightarrow> (\<lambda>c. None)
      | Inr sma \<Rightarrow> band2 sma)"

text \<open>
  The two collections that grow over the loop. Before the first iteration the
  variables are undefined.
\<close>

record 'c stacks =
  snowMelt :: "('c, int) image list option"
  snowAcc :: "('c, int) image list option"

definition loop_body ::
  "int \<Rightarrow> (int \<Rightarrow> ('c, int) image list) \<Rightarrow> (int \<Rightarrow> ('c, int) image list) \<Rightarrow> int
     \<Rightarrow> 'c stacks \<Rightarrow> error + 'c stacks" where
  "loop_body t0 terra aqua i st =
     (case year_summary (terra i) (aqua i) of
        Inl e \<Rightarrow> Inl e
      | Inr sma \<Rightarrow>
          (let meltImg = \<lparr>time_start = Some i, band = band1 sma\<rparr>;
               accImg = \<lparr>time_start = Some i, band = band2 sma\<rparr>
           in if i = t0 then Inr \<lparr>snowMelt = Some [meltImg], snowAcc = Some [accImg]\<rparr>
              else (case snowMelt st of
                      None \<Rightarrow> Inl UndefinedCollection
                    | Some ms \<Rightarrow>
                        (case snowAcc st of
                           None \<Rightarrow> Inl UndefinedCollection
                         | Some as \<Rightarrow>
                             Inr \<lparr>snowMelt = Some (ms @ [meltImg]),
                                  snowAcc = Some (as @ [accImg])\<rparr>))))"

function year_loop ::
  "int \<Rightarrow> int \<Rightarrow> (int \<Rightarrow> ('c, int) image list) \<Rightarrow> (int \<Rightarrow> ('c, int) image list) \<Rightarrow> int
     \<Rightarrow> 'c stacks \<Rightarrow> error + 'c stacks" where
  "year_loop t0 t1 terra aqua i st =
     (if i \<le> t1
      then (case loop_body t0 terra aqua i st of
              Inl e \<Rightarrow> Inl e
            | Inr st' \<Rightarrow> year_loop t0 t1 terra aqua (i + 1) st')
      else Inr st)"
  by pat_completeness auto
termination
  by (relation "measure (\<lambda>(t0, t1, terra, aqua, i, st). nat (t1 + 1 - i))") auto

declare year_loop.simps [simp del]

subsection \<open>After the loop: season length, masks and the trend\<close>

definition snowFree :: "('c, int) image list \<Rightarrow> ('c, int) image list \<Rightarrow> ('c, int) image list" where
  "snowFree melts accs =
     (let innerJoinedCollection = innerJoin_apply melts accs filterTimeEq;
          joinedCollection = map concatBands innerJoinedCollection
      in map difference joinedCollection)"

definition snowFreeMedian :: "('c, int) image list \<Rightarrow> ('c, rat) raster" where
  "snowFreeMedian sf = median sf"

definition snowFreeMask :: "('c, int) image list \<Rightarrow> ('c, int) raster" where
  "snowFreeMask sf = lt (snowFreeMedian sf) 306"

definition linearFit ::
  "((int \<times> int) list \<Rightarrow> (rat \<times> rat) option) \<Rightarrow> ('c, int) image list \<Rightarrow> ('c, rat) image2" where
  "linearFit fit melts = reduce_linearFit fit (map createTimeBand melts)"

definition waterMask :: "('c, int) raster \<Rightarrow> ('c, int) raster" where
  "waterMask data = eq_img data 1"

definition mask :: "('c, int) raster \<Rightarrow> ('c, int) raster \<Rightarrow> ('c, int) raster" where
  "mask data sfMask = multiply (waterMask data) sfMask"

definition filteredFit :: "('c, rat) image2 \<Rightarrow> ('c, int) raster \<Rightarrow> ('c, rat) image2" where
  "filteredFit lf m =
     lf\<lparr>band1 := multiply (band1 lf) (expression rat_of_int m),
        band2 := multiply (band2 lf) (expression rat_of_int m)\<rparr>"

text \<open>The layer the script puts on the map: \<open>linearFit.mask(mask)\<close>.\<close>

definition fit_layer :: "('c, rat) image2 \<Rightarrow> ('c, int) raster \<Rightarrow> ('c, rat) image2" where
  "fit_layer lf m = lf\<lparr>band1 := mask_with (band1 lf) m, band2 := mask_with (band2 lf) m\<rparr>"

record 'c products =
  melt_stack :: "('c, int) image list"
  acc_stack :: "('c, int) image list"
  season_length :: "('c, int) image list"
  season_mask :: "('c, int) raster"
  final_mask :: "('c, int) raster"
  trend :: "('c, rat) image2"
  shown :: "('c, rat) image2"

text \<open>
  The whole script: the years \<open>t0\<close> to \<open>t1\<close>, the two sensors' collections of each year
  (the catalog's answer, filtered to the year and sorted) and the land/water raster
  \<open>data\<close>. The charts of the year 2003 and the renaming of bands for export feed no
  later step and are left out; \<open>filteredFit\<close> is computed by the script and not used.
\<close>

definition script ::
  "((int \<times> int) list \<Rightarrow> (rat \<times> rat) option) \<Rightarrow> int \<Rightarrow> int
     \<Rightarrow> (int \<Rightarrow> ('c, int) image list) \<Rightarrow> (int \<Rightarrow> ('c, int) image list)
     \<Rightarrow> ('c, int) raster \<Rightarrow> error + 'c products" where
  "script fit t0 t1 terra aqua data =
     (case year_loop t0 t1 terra aqua t0 \<lparr>snowMelt = None, snowAcc = None\<rparr> of
        Inl e \<Rightarrow> Inl e
      | Inr st \<Rightarrow>
          (case snowMelt st of
             None \<Rightarrow> Inl UndefinedCollection
           | Some melts \<Rightarrow>
               (case snowAcc st of
                  None \<Rightarrow> Inl UndefinedCollection
                | Some accs \<Rightarrow>
                    (let sf = snowFree melts accs;
                         lf = linearFit fit melts;
                         m = mask data (snowFreeMask sf)
                     in Inr \<lparr>melt_stack = melts, acc_stack = accs, season_length = sf,
                             season_mask = snowFreeMask sf, final_mask = m,
                             trend = lf, shown = fit_layer lf m\<rparr>))))"

subsection \<open>A small run\<close>

text \<open>
  Test data: two cells and three days a year. Cell 0 is masked in every image of both
  sensors; cell 1 has the cover values 40, 3, 2 from the first sensor and masked, 4,
  masked from the second. Every year has the same data, all cells are land, and the
  fit is left out.
\<close>

definition ex_image :: "int \<Rightarrow> int option \<Rightarrow> (nat, int) image" where
  "ex_image k v = \<lparr>time_start = Some (k * msPerDay), band = (\<lambda>c. if c = 0 then None else v)\<rparr>"

definition ex_terra :: "int \<Rightarrow> (nat, int) image list" where
  "ex_terra y = [ex_image 0 (Some 40), ex_image 1 (Some 3), ex_image 2 (Some 2)]"

definition ex_aqua :: "int \<Rightarrow> (nat, int) image list" where
  "ex_aqua y = [ex_image 0 None, ex_image 1 (Some 4), ex_image 2 None]"

definition ex_data :: "(nat, int) raster" where
  "ex_data = (\<lambda>c. Some 1)"

definition ex_fit :: "(int \<times> int) list \<Rightarrow> (rat \<times> rat) option" where
  "ex_fit = (\<lambda>ps. None)"

text \<open>
  A fused image of day 100 (99 days after the start) with cover 3 in cell 1, and the
  event image returnDoy makes of it.
\<close>

definition ex_fused_named :: "(nat, int) named_image" where
  "ex_fused_named =
     \<lparr>time_start = Some (99 * msPerDay), band = (\<lambda>c. if c = 0 then None else Some 3),
      bandName = ''NDSI_Snow_Cover''\<rparr>"

definition ex_event_named :: "(nat, int) named_image" where
  "ex_event_named =
     \<lparr>time_start = None, band = (\<lambda>c. if c = 0 then None else Some 100),
      bandName = ''constant''\<rparr>"

text \<open>
  Test data of three days a year in which the years differ: in 2003 both cells are
  masked in every image of both sensors; in every other year cell 1 has cover 3 from
  both sensors on the first day and on the day 320 days later, and cover 80 on a day
  in between.
\<close>

definition ex_var_terra :: "int \<Rightarrow> (nat, int) image list" where
  "ex_var_terra y =
     (if y = 2003 then [ex_image 0 None, ex_image 100 None, ex_image 320 None]
      else [ex_image 0 (Some 3), ex_image 100 (Some 80), ex_image 320 (Some 3)])"

definition ex_var_aqua :: "int \<Rightarrow> (nat, int) image list" where
  "ex_var_aqua y =
     (if y = 2003 then [ex_image 0 None, ex_image 100 None, ex_image 320 None]
      else [ex_image 0 (Some 3), ex_image 100 (Some 80), ex_image 320 (Some 3)])"

text \<open>The season mask of a run in one cell, or the error.\<close>

definition season_mask_of :: "error + 'c products \<Rightarrow> 'c \<Rightarrow> error + int option" where
  "season_mask_of r c = (case r of Inl e \<Rightarrow> Inl e | Inr p \<Rightarrow> Inr (season_mask p c))"

section \<open>The Stream Fuser\<close>

text \<open>What maxVal computes in one cell, from the two bands of the joined image.\<close>

lemma maxVal_band:
  "band (maxVal img) c =
     (let m = max (case band1 img c of None \<Rightarrow> 0 | Some x \<Rightarrow> if x = 0 then - 10 else x)
                  (case band2 img c of None \<Rightarrow> 0 | Some y \<Rightarrow> if y = 0 then - 10 else y)
      in if m = 0 then None else Some (if m = - 10 then 0 else m))"
  by (auto simp add: maxVal_def expression_def unmask_def max_img_def binop_def updateMask_def
      neq_def Let_def max_def split: option.splits)

lemma maxVal_time_start: "time_start (maxVal img) = time_start img"
  by (simp add: maxVal_def Let_def)

text \<open>
  On cover values (which are not negative) the fused cell is the larger reading when
  both sensors are valid, the valid reading when it is positive and the other sensor is
  masked, and masked when both are masked.
\<close>

lemma maxVal_both_valid:
  "band1 img c = Some a \<Longrightarrow> band2 img c = Some b \<Longrightarrow> 0 \<le> a \<Longrightarrow> 0 \<le> b \<Longrightarrow>
   band (maxVal img) c = Some (max a b)"
  by (simp add: maxVal_band Let_def max_def)

lemma maxVal_first_valid:
  "band1 img c = Some a \<Longrightarrow> band2 img c = None \<Longrightarrow> 0 < a \<Longrightarrow>
   band (maxVal img) c = Some a"
  by (simp add: maxVal_band Let_def max_def)

lemma maxVal_second_valid:
  "band1 img c = None \<Longrightarrow> band2 img c = Some b \<Longrightarrow> 0 < b \<Longrightarrow>
   band (maxVal img) c = Some b"
  by (simp add: maxVal_band Let_def max_def)

lemma maxVal_none_valid:
  "band1 img c = None \<Longrightarrow> band2 img c = None \<Longrightarrow> band (maxVal img) c = None"
  by (simp add: maxVal_band)

text \<open>
  C1. The fused cell should be the larger of the two readings whenever one of them is
  valid; in particular a valid 0 of sensor A with sensor B masked should give a valid 0.
  The script does not do that: the 0 is recoded to -10, the masked cell of the other
  sensor is filled with 0, the maximum of the two is 0, and a maximum of 0 is masked.
  So a cell where the first band is a valid 0 and the second band is masked comes out
  masked.
\<close>

theorem maxVal_masks_lone_zero:
  "band (maxVal (img\<lparr>band1 := (band1 img)(c := Some 0),
                     band2 := (band2 img)(c := None)\<rparr>)) c = None"
  by (simp add: maxVal_band)

text \<open>
  C9. The fuser leaves the timestamp alone: the fused image of a joined pair has the
  \<open>system:time_start\<close> of the pair's first (sensor A) image, and so the timestamps of
  a year's fused collection are those of the joined pairs' first images, in order.
\<close>

theorem fuser_keeps_time_start:
  "time_start (maxVal (concatBands (a, b))) = time_start a \<and>
   map time_start (yearlyCollection terraCollection aquaCollection) =
     map (\<lambda>f. time_start (fst f)) (innerJoin_apply terraCollection aquaCollection filterTimeEq)"
  by (simp add: maxVal_time_start concatBands_def yearlyCollection_def Let_def comp_def)

section \<open>The Event Encoder\<close>

lemma toInt_of_int: "- 2147483648 \<le> n \<Longrightarrow> n \<le> 2147483647 \<Longrightarrow> toInt (rat_of_int n) = n"
  by (simp add: toInt_def Let_def)

lemma date_difference_whole: "date_difference_day (start + k * msPerDay) start = rat_of_int k"
  by (simp add: date_difference_day_def msPerDay_def)

lemma toInt_9999: "toInt 9999 = 9999"
  by (simp add: toInt_def Let_def)

text \<open>
  The result of returnDoy on an image that has a timestamp, with \<open>d\<close> the day number
  after the cast.
\<close>

lemma returnDoy_band:
  "time_start img = Some t \<Longrightarrow> toInt (date_difference_day t start + 1) = d \<Longrightarrow>
   returnDoy start img = Inr \<lparr>time_start = None, band = (\<lambda>c. case band img c of None \<Rightarrow> None
      | Some cover \<Rightarrow> if cover \<le> 5 \<and> d \<noteq> 9999 then Some d else None)\<rparr>"
  by (auto simp add: returnDoy_def replacement_def expression_def updateMask_def neq_def Let_def
      toInt_9999 fun_eq_iff split: option.splits)

text \<open>
  C2. For an image of a year's series, \<open>k\<close> whole days after \<open>start\<close> (\<open>0 \<le> k < 366\<close>),
  the day of year is \<open>k + 1\<close>; the intermediate raster holds \<open>k + 1\<close> in a cell whose
  cover is at most 5 and the sentinel 9999 in any other valid cell; the result keeps
  \<open>k + 1\<close> in the first kind of cell and masks the second kind, so only the cells that
  are snow-free that day stay valid.
\<close>

theorem returnDoy_encodes:
  assumes "time_start img = Some (start + k * msPerDay)" and "0 \<le> k" and "k < 366"
  shows "\<exists>ev. returnDoy start img = Inr ev \<and>
     date_difference_day (start + k * msPerDay) start + 1 = rat_of_int (k + 1) \<and>
     replacement (rat_of_int (k + 1)) (band img) c =
       (case band img c of None \<Rightarrow> None
        | Some cover \<Rightarrow> Some (if cover \<le> 5 then k + 1 else 9999)) \<and>
     band ev c =
       (case band img c of None \<Rightarrow> None
        | Some cover \<Rightarrow> if cover \<le> 5 then Some (k + 1) else None)"
proof -
  have d: "date_difference_day (start + k * msPerDay) start + 1 = rat_of_int (k + 1)"
    by (simp add: date_difference_whole)
  have t: "toInt (rat_of_int (k + 1)) = k + 1"
    using assms by (intro toInt_of_int) simp_all
  have r: "replacement (rat_of_int (k + 1)) (band img) c =
       (case band img c of None \<Rightarrow> None
        | Some cover \<Rightarrow> Some (if cover \<le> 5 then k + 1 else 9999))"
    using t by (simp add: replacement_def expression_def toInt_9999 split: option.splits)
  have "toInt (date_difference_day (start + k * msPerDay) start + 1) = k + 1"
    using d t by simp
  from returnDoy_band [OF assms(1) this] assms(3) d r show ?thesis
    by (auto split: option.splits)
qed

theorem returnDoy_encodes_witness:
  "\<exists>ev. returnDoy 0 \<lparr>time_start = Some (2 * msPerDay),
                      band = (\<lambda>c::nat. if c = 0 then Some 3 else Some 40)\<rparr> = Inr ev \<and>
        band ev 0 = Some 3 \<and> band ev 1 = None"
proof -
  let ?img = "\<lparr>time_start = Some (2 * msPerDay),
               band = (\<lambda>c::nat. if c = 0 then Some (3::int) else Some 40)\<rparr>"
  have h: "time_start ?img = Some (0 + 2 * msPerDay)" by simp
  from returnDoy_encodes [OF h, of 0] returnDoy_encodes [OF h, of 1] show ?thesis
    by auto
qed

section \<open>The Year Reducer\<close>

lemma foldl_minMax_add:
  "foldl minMax_add (Some (lo, hi)) vs = Some (fold min vs lo, fold max vs hi)"
  by (induction vs arbitrary: lo hi) (simp_all add: min.commute max.commute)

lemma minMax_Nil: "minMax [] = None"
  by (simp add: minMax_def)

lemma minMax_nonempty:
  assumes "vs \<noteq> []"
  shows "minMax vs = Some (Min (set vs), Max (set vs))"
proof (cases vs)
  case Nil
  with assms show ?thesis by simp
next
  case (Cons v ws)
  have "minMax (v # ws) = Some (fold min ws v, fold max ws v)"
    by (simp add: minMax_def foldl_minMax_add)
  also have "\<dots> = Some (Min (set (v # ws)), Max (set (v # ws)))"
    by (simp only: Min.set_eq_fold Max.set_eq_fold)
  finally show ?thesis using Cons by simp
qed

lemma Min_le_Max_list:
  assumes "vs \<noteq> []"
  shows "Min (set vs) \<le> (Max (set vs) :: int)"
proof -
  from assms have "hd vs \<in> set vs" by simp
  then have "Min (set vs) \<le> hd vs" and "hd vs \<le> Max (set vs)" by simp_all
  then show ?thesis by (rule order_trans)
qed

lemma set_unmasked_values:
  "set (unmasked_values col c) = {v. \<exists>i \<in> set col. band i c = Some v}"
  by (induction col) (auto simp: unmasked_values_def split: option.splits)

lemma snowMeltAcc_band1:
  "band1 (snowMeltAcc doys) c =
     Some (if unmasked_values doys c = [] then 366 else Min (set (unmasked_values doys c)))"
  by (simp add: snowMeltAcc_def reduce_minMax_def unmask_def Let_def minMax_Nil minMax_nonempty)

lemma snowMeltAcc_band2:
  "band2 (snowMeltAcc doys) c =
     Some (if unmasked_values doys c = [] then 366 else Max (set (unmasked_values doys c)))"
  by (simp add: snowMeltAcc_def reduce_minMax_def unmask_def Let_def minMax_Nil minMax_nonempty)

lemma snowMeltAcc_ordered:
  "\<exists>m a. band1 (snowMeltAcc doys) c = Some m \<and> band2 (snowMeltAcc doys) c = Some a \<and> m \<le> a"
proof (cases "unmasked_values doys c = []")
  case True
  then show ?thesis by (simp add: snowMeltAcc_band1 snowMeltAcc_band2)
next
  case False
  then have "Min (set (unmasked_values doys c)) \<le> Max (set (unmasked_values doys c))"
    by (rule Min_le_Max_list)
  with False show ?thesis by (simp add: snowMeltAcc_band1 snowMeltAcc_band2)
qed

text \<open>
  C3. In every cell the melt band is the smallest and the accumulation band the
  largest of the day numbers that the year's event images hold there; where no event
  image has a valid value for the cell, both are 366.
\<close>

theorem year_reducer_min_max:
  "band1 (snowMeltAcc doys) c =
     Some (if {v. \<exists>i \<in> set doys. band i c = Some v} = {} then 366
           else Min {v. \<exists>i \<in> set doys. band i c = Some v}) \<and>
   band2 (snowMeltAcc doys) c =
     Some (if {v. \<exists>i \<in> set doys. band i c = Some v} = {} then 366
           else Max {v. \<exists>i \<in> set doys. band i c = Some v})"
proof -
  have e: "(unmasked_values doys c = []) = ({v. \<exists>i \<in> set doys. band i c = Some v} = {})"
    unfolding set_unmasked_values [symmetric] by simp
  show ?thesis
    unfolding snowMeltAcc_band1 snowMeltAcc_band2 e set_unmasked_values by simp
qed

text \<open>
  C4. In every cell of a year's summary, either the cell had a qualifying day and
  melt is at most acc, or it had none and melt and acc are both 366.
\<close>

theorem melt_le_acc_or_sentinel:
  "\<exists>m a. band1 (snowMeltAcc doys) c = Some m \<and> band2 (snowMeltAcc doys) c = Some a \<and>
     (({v. \<exists>i \<in> set doys. band i c = Some v} \<noteq> {} \<and> m \<le> a) \<or>
      ({v. \<exists>i \<in> set doys. band i c = Some v} = {} \<and> m = 366 \<and> a = 366))"
proof (cases "unmasked_values doys c = []")
  case True
  moreover from True have "{v. \<exists>i \<in> set doys. band i c = Some v} = {}"
    unfolding set_unmasked_values [symmetric] by simp
  ultimately show ?thesis by (simp add: snowMeltAcc_band1 snowMeltAcc_band2)
next
  case False
  then have "Min (set (unmasked_values doys c)) \<le> Max (set (unmasked_values doys c))"
    by (rule Min_le_Max_list)
  moreover from False have "{v. \<exists>i \<in> set doys. band i c = Some v} \<noteq> {}"
    unfolding set_unmasked_values [symmetric] by simp
  ultimately show ?thesis using False by (simp add: snowMeltAcc_band1 snowMeltAcc_band2)
qed

section \<open>The main loop and the script as a whole\<close>

text \<open>Mapping over a collection, the join, and when a year succeeds.\<close>

lemma map_collection_Inr:
  "map_collection f xs = Inr ys \<Longrightarrow> list_all2 (\<lambda>x y. f x = Inr y) xs ys"
  by (induction xs arbitrary: ys) (auto split: sum.splits)

lemma map_collection_total:
  "(\<And>x. x \<in> set xs \<Longrightarrow> \<exists>y. f x = Inr y) \<Longrightarrow> \<exists>ys. map_collection f xs = Inr ys"
proof (induction xs)
  case Nil
  then show ?case by simp
next
  case (Cons x xs)
  then obtain y where "f x = Inr y" by auto
  moreover from Cons obtain ys where "map_collection f xs = Inr ys" by auto
  ultimately show ?case by simp
qed

lemma set_innerJoin_apply:
  "set (innerJoin_apply primary secondary cond) =
     {(p, s). p \<in> set primary \<and> s \<in> set secondary \<and> cond p s}"
  by (auto simp: innerJoin_apply_def)

lemma yearlyCollection_time_start:
  assumes "i \<in> set (yearlyCollection terraCollection aquaCollection)"
  shows "\<exists>t. time_start i = Some t"
proof -
  from assms obtain p s where "i = maxVal (concatBands (p, s))" and "filterTimeEq p s"
    by (auto simp: yearlyCollection_def Let_def set_innerJoin_apply)
  then show ?thesis
    by (auto simp: maxVal_time_start concatBands_def filterTimeEq_def split: option.splits)
qed

lemma returnDoy_total: "time_start img = Some t \<Longrightarrow> \<exists>ev. returnDoy start img = Inr ev"
  by (simp add: returnDoy_def Let_def)

lemma returnDoy_keeps_masked:
  "returnDoy start img = Inr ev \<Longrightarrow> band img c = None \<Longrightarrow> band ev c = None"
  by (auto simp: returnDoy_def Let_def replacement_def expression_def updateMask_def
      split: option.splits)

lemma year_summary_total:
  assumes "yearlyCollection terraCollection aquaCollection \<noteq> []"
  shows "\<exists>sma. year_summary terraCollection aquaCollection = Inr sma"
proof -
  let ?Y = "yearlyCollection terraCollection aquaCollection"
  from assms obtain first rest where Y: "?Y = first # rest" by (cases ?Y) auto
  then have "first \<in> set ?Y" by simp
  then obtain start where s: "time_start first = Some start"
    using yearlyCollection_time_start by blast
  have "\<exists>doys. map_collection (returnDoy start) ?Y = Inr doys"
  proof (rule map_collection_total)
    fix x assume "x \<in> set ?Y"
    then obtain t where "time_start x = Some t" using yearlyCollection_time_start by blast
    then show "\<exists>y. returnDoy start x = Inr y" by (rule returnDoy_total)
  qed
  then obtain doys where "map_collection (returnDoy start) ?Y = Inr doys" ..
  with Y s have "doyCollection ?Y = Inr doys"
    by (simp add: doyCollection_def)
  then show ?thesis by (simp add: year_summary_def)
qed

lemma year_summary_Inr_nonempty:
  "year_summary terraCollection aquaCollection = Inr sma \<Longrightarrow>
   yearlyCollection terraCollection aquaCollection \<noteq> []"
  by (auto simp: year_summary_def doyCollection_def split: sum.splits list.splits)

lemma year_summary_cells:
  assumes "year_summary terraCollection aquaCollection = Inr sma"
  shows "\<exists>m a. year_melt terraCollection aquaCollection c = Some m \<and>
               year_acc terraCollection aquaCollection c = Some a \<and> m \<le> a"
proof -
  from assms obtain doys where "sma = snowMeltAcc doys"
    by (auto simp: year_summary_def split: sum.splits)
  with assms snowMeltAcc_ordered [of doys c] show ?thesis
    by (simp add: year_melt_def year_acc_def)
qed

lemma year_loop_append:
  assumes "year_loop t0 t1 terra aqua i st = Inr st'" and "t0 < i"
    and "snowMelt st = Some ms" and "snowAcc st = Some as"
  shows "snowMelt st' = Some (ms @ map (\<lambda>y. \<lparr>time_start = Some y, band = year_melt (terra y) (aqua y)\<rparr>) [i..t1]) \<and>
         snowAcc st' = Some (as @ map (\<lambda>y. \<lparr>time_start = Some y, band = year_acc (terra y) (aqua y)\<rparr>) [i..t1]) \<and>
         (\<forall>y \<in> {i..t1}. \<exists>sma. year_summary (terra y) (aqua y) = Inr sma)"
  using assms
proof (induction t0 t1 terra aqua i st arbitrary: ms as rule: year_loop.induct)
  case (1 t0 t1 terra aqua i st)
  show ?case
  proof (cases "i \<le> t1")
    case False
    with "1.prems" show ?thesis by (simp add: year_loop.simps [of t0 t1 terra aqua i st])
  next
    case True
    with "1.prems"(1) obtain st2 where b: "loop_body t0 terra aqua i st = Inr st2"
      and l: "year_loop t0 t1 terra aqua (i + 1) st2 = Inr st'"
      by (auto simp: year_loop.simps [of t0 t1 terra aqua i st] split: sum.splits)
    from b obtain sma where y: "year_summary (terra i) (aqua i) = Inr sma"
      by (auto simp: loop_body_def split: sum.splits)
    let ?m = "\<lparr>time_start = Some i, band = year_melt (terra i) (aqua i)\<rparr>"
    let ?a = "\<lparr>time_start = Some i, band = year_acc (terra i) (aqua i)\<rparr>"
    from b y "1.prems" have st2: "snowMelt st2 = Some (ms @ [?m])" "snowAcc st2 = Some (as @ [?a])"
      by (auto simp: loop_body_def Let_def year_melt_def year_acc_def)
    from "1.prems"(2) have lt: "t0 < i + 1" by simp
    note IH = "1.IH" [OF True b l lt st2]
    have u: "[i..t1] = i # [i + 1..t1]" using True by (rule upto_rec1)
    have s: "{i..t1} = insert i {i + 1..t1}" using True by auto
    from IH y show ?thesis unfolding u s by simp
  qed
qed

text \<open>
  What a successful run of the script holds: the years are not empty, each year
  succeeded, and the stacks hold one image for each year, tagged with the year.
\<close>

lemma year_loop_first:
  assumes "year_loop t0 t1 terra aqua t0 \<lparr>snowMelt = None, snowAcc = None\<rparr> = Inr st'"
    and "snowMelt st' = Some melts" and "snowAcc st' = Some accs"
  shows "t0 \<le> t1 \<and>
         melts = map (\<lambda>y. \<lparr>time_start = Some y, band = year_melt (terra y) (aqua y)\<rparr>) [t0..t1] \<and>
         accs = map (\<lambda>y. \<lparr>time_start = Some y, band = year_acc (terra y) (aqua y)\<rparr>) [t0..t1] \<and>
         (\<forall>y \<in> {t0..t1}. \<exists>sma. year_summary (terra y) (aqua y) = Inr sma)"
proof -
  let ?st = "\<lparr>snowMelt = None, snowAcc = None\<rparr> :: 'a stacks"
  have le: "t0 \<le> t1"
  proof (rule ccontr)
    assume "\<not> t0 \<le> t1"
    with assms(1) have "st' = ?st" by (simp add: year_loop.simps [of t0 t1 terra aqua t0 ?st])
    with assms(2) show False by simp
  qed
  with assms(1) obtain st2 where b: "loop_body t0 terra aqua t0 ?st = Inr st2"
    and l: "year_loop t0 t1 terra aqua (t0 + 1) st2 = Inr st'"
    by (auto simp: year_loop.simps [of t0 t1 terra aqua t0 ?st] split: sum.splits)
  from b obtain sma where y: "year_summary (terra t0) (aqua t0) = Inr sma"
    by (auto simp: loop_body_def split: sum.splits)
  let ?m = "\<lparr>time_start = Some t0, band = year_melt (terra t0) (aqua t0)\<rparr>"
  let ?a = "\<lparr>time_start = Some t0, band = year_acc (terra t0) (aqua t0)\<rparr>"
  from b y have st2: "snowMelt st2 = Some [?m]" "snowAcc st2 = Some [?a]"
    by (auto simp: loop_body_def Let_def year_melt_def year_acc_def)
  have lt: "t0 < t0 + 1" by simp
  note A = year_loop_append [OF l lt st2]
  have u: "[t0..t1] = t0 # [t0 + 1..t1]" using le by (rule upto_rec1)
  have s: "{t0..t1} = insert t0 {t0 + 1..t1}" using le by auto
  from A y le assms(2,3) show ?thesis unfolding u s by simp
qed

lemma script_Inr:
  assumes "script fit t0 t1 terra aqua data = Inr p"
  shows "t0 \<le> t1"
    and "\<forall>y \<in> {t0..t1}. \<exists>sma. year_summary (terra y) (aqua y) = Inr sma"
    and "melt_stack p = map (\<lambda>y. \<lparr>time_start = Some y, band = year_melt (terra y) (aqua y)\<rparr>) [t0..t1]"
    and "acc_stack p = map (\<lambda>y. \<lparr>time_start = Some y, band = year_acc (terra y) (aqua y)\<rparr>) [t0..t1]"
    and "season_length p = snowFree (melt_stack p) (acc_stack p)"
    and "season_mask p = snowFreeMask (season_length p)"
    and "final_mask p = mask data (season_mask p)"
    and "trend p = linearFit fit (melt_stack p)"
    and "shown p = fit_layer (trend p) (final_mask p)"
proof -
  from assms obtain st' melts accs where
    l: "year_loop t0 t1 terra aqua t0 \<lparr>snowMelt = None, snowAcc = None\<rparr> = Inr st'"
    and m: "snowMelt st' = Some melts" and a: "snowAcc st' = Some accs"
    and p: "p = \<lparr>melt_stack = melts, acc_stack = accs, season_length = snowFree melts accs,
                 season_mask = snowFreeMask (snowFree melts accs),
                 final_mask = mask data (snowFreeMask (snowFree melts accs)),
                 trend = linearFit fit melts,
                 shown = fit_layer (linearFit fit melts) (mask data (snowFreeMask (snowFree melts accs)))\<rparr>"
    by (auto simp: script_def Let_def split: sum.splits option.splits)
  note F = year_loop_first [OF l m a]
  from F show "t0 \<le> t1" by simp
  from F show "\<forall>y \<in> {t0..t1}. \<exists>sma. year_summary (terra y) (aqua y) = Inr sma" by simp
  from F p show "melt_stack p = map (\<lambda>y. \<lparr>time_start = Some y, band = year_melt (terra y) (aqua y)\<rparr>) [t0..t1]"
    by simp
  from F p show "acc_stack p = map (\<lambda>y. \<lparr>time_start = Some y, band = year_acc (terra y) (aqua y)\<rparr>) [t0..t1]"
    by simp
  from p show "season_length p = snowFree (melt_stack p) (acc_stack p)" by simp
  from p show "season_mask p = snowFreeMask (season_length p)" by simp
  from p show "final_mask p = mask data (season_mask p)" by simp
  from p show "trend p = linearFit fit (melt_stack p)" by simp
  from p show "shown p = fit_layer (trend p) (final_mask p)" by simp
qed

lemma filter_eq_distinct:
  "distinct zs \<Longrightarrow> filter (\<lambda>z. z = y) zs = (if y \<in> set zs then [y] else [])"
  by (induction zs) auto

lemma innerJoin_tagged:
  assumes "distinct ys"
  shows "set xs \<subseteq> set ys \<Longrightarrow>
     innerJoin_apply (map (\<lambda>y. \<lparr>time_start = Some y, band = M y\<rparr>) xs)
                     (map (\<lambda>y. \<lparr>time_start = Some y, band = A y\<rparr>) ys) filterTimeEq =
     map (\<lambda>y. (\<lparr>time_start = Some y, band = M y\<rparr>, \<lparr>time_start = Some y, band = A y\<rparr>)) xs"
proof (induction xs)
  case Nil
  then show ?case by (simp add: innerJoin_apply_def)
next
  case (Cons x xs)
  have "filter (filterTimeEq \<lparr>time_start = Some x, band = M x\<rparr>)
          (map (\<lambda>y. \<lparr>time_start = Some y, band = A y\<rparr>) ys) =
        map (\<lambda>y. \<lparr>time_start = Some y, band = A y\<rparr>) (filter (\<lambda>z. z = x) ys)"
    by (simp add: filter_map comp_def filterTimeEq_def)
  also have "\<dots> = [\<lparr>time_start = Some x, band = A x\<rparr>]"
    using Cons.prems assms by (simp add: filter_eq_distinct)
  finally have f: "filter (filterTimeEq \<lparr>time_start = Some x, band = M x\<rparr>)
          (map (\<lambda>y. \<lparr>time_start = Some y, band = A y\<rparr>) ys) = [\<lparr>time_start = Some x, band = A x\<rparr>]" .
  from Cons have "innerJoin_apply (map (\<lambda>y. \<lparr>time_start = Some y, band = M y\<rparr>) xs)
                     (map (\<lambda>y. \<lparr>time_start = Some y, band = A y\<rparr>) ys) filterTimeEq =
     map (\<lambda>y. (\<lparr>time_start = Some y, band = M y\<rparr>, \<lparr>time_start = Some y, band = A y\<rparr>)) xs"
    by simp
  with f show ?case by (simp add: innerJoin_apply_def)
qed

lemma snowFree_tagged:
  assumes "distinct ys"
  shows "snowFree (map (\<lambda>y. \<lparr>time_start = Some y, band = M y\<rparr>) ys)
                  (map (\<lambda>y. \<lparr>time_start = Some y, band = A y\<rparr>) ys) =
         map (\<lambda>y. \<lparr>time_start = Some y, band = subtract (A y) (M y)\<rparr>) ys"
  using innerJoin_tagged [OF assms, of ys M A]
  by (simp add: snowFree_def Let_def concatBands_def difference_def comp_def)

lemma season_length_script:
  assumes "script fit t0 t1 terra aqua data = Inr p"
  shows "season_length p =
     map (\<lambda>y. \<lparr>time_start = Some y,
               band = subtract (year_acc (terra y) (aqua y)) (year_melt (terra y) (aqua y))\<rparr>) [t0..t1]"
  unfolding script_Inr(5) [OF assms] script_Inr(3) [OF assms] script_Inr(4) [OF assms]
  by (rule snowFree_tagged) simp

lemma season_length_cell:
  assumes "script fit t0 t1 terra aqua data = Inr p" and "y \<in> {t0..t1}"
  shows "\<exists>m a. year_melt (terra y) (aqua y) c = Some m \<and>
               year_acc (terra y) (aqua y) c = Some a \<and> m \<le> a \<and>
               time_start (season_length p ! nat (y - t0)) = Some y \<and>
               band (season_length p ! nat (y - t0)) c = Some (a - m)"
proof -
  from script_Inr(2) [OF assms(1)] assms(2) obtain sma
    where "year_summary (terra y) (aqua y) = Inr sma" by blast
  from year_summary_cells [OF this, of c] obtain m a
    where ma: "year_melt (terra y) (aqua y) c = Some m"
      "year_acc (terra y) (aqua y) c = Some a" "m \<le> a" by blast
  from assms(2) have n: "nat (y - t0) < length [t0..t1]" by simp
  from assms(2) have "[t0..t1] ! nat (y - t0) = y" by simp
  with n ma show ?thesis
    unfolding season_length_script [OF assms(1)]
    by (simp add: subtract_def binop_def del: length_upto)
qed

text \<open>
  The script returns a result whenever there is a year to process and every year has
  a pair of images with equal timestamps.
\<close>

lemma year_loop_total:
  assumes "\<forall>y \<in> {i..t1}. \<exists>sma. year_summary (terra y) (aqua y) = Inr sma"
    and "i = t0 \<or> (\<exists>ms as. snowMelt st = Some ms \<and> snowAcc st = Some as)"
  shows "\<exists>st'. year_loop t0 t1 terra aqua i st = Inr st' \<and>
           (i \<le> t1 \<longrightarrow> (\<exists>ms as. snowMelt st' = Some ms \<and> snowAcc st' = Some as)) \<and>
           (t1 < i \<longrightarrow> st' = st)"
  using assms
proof (induction t0 t1 terra aqua i st rule: year_loop.induct)
  case (1 t0 t1 terra aqua i st)
  show ?case
  proof (cases "i \<le> t1")
    case False
    then show ?thesis by (simp add: year_loop.simps [of t0 t1 terra aqua i st])
  next
    case True
    then have "i \<in> {i..t1}" by simp
    with "1.prems"(1) obtain sma where y: "year_summary (terra i) (aqua i) = Inr sma" by blast
    with "1.prems"(2) have "\<exists>st2. loop_body t0 terra aqua i st = Inr st2 \<and>
        (\<exists>ms as. snowMelt st2 = Some ms \<and> snowAcc st2 = Some as)"
      by (cases "i = t0") (auto simp: loop_body_def Let_def)
    then obtain st2 where b: "loop_body t0 terra aqua i st = Inr st2"
      and d: "\<exists>ms as. snowMelt st2 = Some ms \<and> snowAcc st2 = Some as"
      by blast
    from "1.prems"(1) have r: "\<forall>y \<in> {i + 1..t1}. \<exists>sma. year_summary (terra y) (aqua y) = Inr sma"
      by auto
    from d have "i + 1 = t0 \<or> (\<exists>ms as. snowMelt st2 = Some ms \<and> snowAcc st2 = Some as)" ..
    from "1.IH" [OF True b r this] obtain st' where
      l: "year_loop t0 t1 terra aqua (i + 1) st2 = Inr st'"
      and c: "i + 1 \<le> t1 \<longrightarrow> (\<exists>ms as. snowMelt st' = Some ms \<and> snowAcc st' = Some as)"
      and e: "t1 < i + 1 \<longrightarrow> st' = st2" by blast
    from True b l have "year_loop t0 t1 terra aqua i st = Inr st'"
      by (simp add: year_loop.simps [of t0 t1 terra aqua i st])
    moreover from c e d have "\<exists>ms as. snowMelt st' = Some ms \<and> snowAcc st' = Some as"
      by (cases "i + 1 \<le> t1") auto
    ultimately show ?thesis using True by simp
  qed
qed

lemma script_total:
  assumes "t0 \<le> t1" and "\<forall>y \<in> {t0..t1}. yearlyCollection (terra y) (aqua y) \<noteq> []"
  shows "\<exists>p. script fit t0 t1 terra aqua data = Inr p"
proof -
  from assms(2) have "\<forall>y \<in> {t0..t1}. \<exists>sma. year_summary (terra y) (aqua y) = Inr sma"
    using year_summary_total by blast
  from year_loop_total [OF this, of t0 "\<lparr>snowMelt = None, snowAcc = None\<rparr>"] assms(1)
  obtain st' ms as where "year_loop t0 t1 terra aqua t0 \<lparr>snowMelt = None, snowAcc = None\<rparr> = Inr st'"
    and "snowMelt st' = Some ms" and "snowAcc st' = Some as" by auto
  then show ?thesis by (simp add: script_def Let_def)
qed

lemma ex_yearlyCollection:
  "yearlyCollection (ex_terra y) (ex_aqua y) =
     [maxVal (concatBands (ex_image 0 (Some 40), ex_image 0 None)),
      maxVal (concatBands (ex_image 1 (Some 3), ex_image 1 (Some 4))),
      maxVal (concatBands (ex_image 2 (Some 2), ex_image 2 None))]"
  by (simp add: yearlyCollection_def ex_terra_def ex_aqua_def innerJoin_apply_def
      filterTimeEq_def ex_image_def msPerDay_def Let_def)

lemma ex_script: "t0 \<le> t1 \<Longrightarrow> \<exists>p. script ex_fit t0 t1 ex_terra ex_aqua ex_data = Inr p"
  by (rule script_total) (simp_all add: ex_yearlyCollection)

lemma ex_year_cell1:
  "year_melt (ex_terra y) (ex_aqua y) 1 = Some 2 \<and> year_acc (ex_terra y) (ex_aqua y) 1 = Some 3"
  by (simp add: year_melt_def year_acc_def year_summary_def doyCollection_def
      ex_yearlyCollection maxVal_time_start concatBands_def ex_image_def
      returnDoy_def replacement_def neq_def updateMask_def expression_def
      date_difference_day_def msPerDay_def toInt_def Let_def
      snowMeltAcc_def reduce_minMax_def unmask_def unmasked_values_def minMax_def maxVal_band)

section \<open>Season length, masks and the degenerate cell\<close>

text \<open>
  C6. In a run of the script the season-length collection has one image for each
  year, tagged with the year, and in every cell its value is the accumulation day
  minus the melt day of that year, each computed on its own from the year's two sensor
  collections: the join on the year tags pairs each year's melt raster with the same
  year's accumulation raster and with no other.
\<close>

theorem snowFree_is_acc_minus_melt:
  assumes "script fit t0 t1 terra aqua data = Inr p"
  shows "map time_start (season_length p) = map Some [t0..t1] \<and>
         (\<forall>y \<in> {t0..t1}. \<exists>m a.
            year_melt (terra y) (aqua y) c = Some m \<and>
            year_acc (terra y) (aqua y) c = Some a \<and>
            band (season_length p ! nat (y - t0)) c = Some (a - m))"
proof
  show "map time_start (season_length p) = map Some [t0..t1]"
    unfolding season_length_script [OF assms] by (simp add: comp_def)
  show "\<forall>y \<in> {t0..t1}. \<exists>m a.
            year_melt (terra y) (aqua y) c = Some m \<and>
            year_acc (terra y) (aqua y) c = Some a \<and>
            band (season_length p ! nat (y - t0)) c = Some (a - m)"
  proof
    fix y assume "y \<in> {t0..t1}"
    from season_length_cell [OF assms this, of c] show "\<exists>m a.
            year_melt (terra y) (aqua y) c = Some m \<and>
            year_acc (terra y) (aqua y) c = Some a \<and>
            band (season_length p ! nat (y - t0)) c = Some (a - m)" by blast
  qed
qed

theorem snowFree_is_acc_minus_melt_witness:
  "\<exists>p. script ex_fit 2003 2004 ex_terra ex_aqua ex_data = Inr p \<and>
       map time_start (season_length p) = [Some 2003, Some 2004] \<and>
       band (season_length p ! 1) 1 = Some 1"
proof -
  have "(2003::int) \<le> 2004" by simp
  from ex_script [OF this] obtain p
    where p: "script ex_fit 2003 2004 ex_terra ex_aqua ex_data = Inr p" ..
  note T = snowFree_is_acc_minus_melt [OF p, of 1]
  from T have "map time_start (season_length p) = [Some 2003, Some 2004]" by simp
  moreover have "band (season_length p ! 1) 1 = Some 1"
  proof -
    from T have "\<forall>y \<in> {2003..2004}. \<exists>m a.
            year_melt (ex_terra y) (ex_aqua y) 1 = Some m \<and>
            year_acc (ex_terra y) (ex_aqua y) 1 = Some a \<and>
            band (season_length p ! nat (y - 2003)) 1 = Some (a - m)" by (rule conjunct2)
    then have "\<exists>m a.
            year_melt (ex_terra 2004) (ex_aqua 2004) 1 = Some m \<and>
            year_acc (ex_terra 2004) (ex_aqua 2004) 1 = Some a \<and>
            band (season_length p ! nat (2004 - 2003)) 1 = Some (a - m)" by (rule bspec) simp
    with ex_year_cell1 [of 2004] show ?thesis by auto
  qed
  ultimately show ?thesis using p by (intro exI [of _ p]) simp
qed

text \<open>
  C10. No season length is negative: every cell of every image of the season-length
  collection holds a valid value that is at least 0.
\<close>

theorem season_length_nonneg:
  assumes "script fit t0 t1 terra aqua data = Inr p" and "img \<in> set (season_length p)"
  shows "\<exists>v. band img c = Some v \<and> 0 \<le> v"
proof -
  from assms(2) obtain y where y: "y \<in> {t0..t1}"
    and i: "img = \<lparr>time_start = Some y,
        band = subtract (year_acc (terra y) (aqua y)) (year_melt (terra y) (aqua y))\<rparr>"
    unfolding season_length_script [OF assms(1)] by auto
  from script_Inr(2) [OF assms(1)] y obtain sma
    where "year_summary (terra y) (aqua y) = Inr sma" by blast
  from year_summary_cells [OF this, of c] i show ?thesis
    by (auto simp: subtract_def binop_def)
qed

theorem season_length_nonneg_witness:
  "\<exists>p. script ex_fit 2003 2004 ex_terra ex_aqua ex_data = Inr p \<and>
       season_length p \<noteq> [] \<and>
       (\<exists>v. band (hd (season_length p)) 1 = Some v \<and> 0 \<le> v)"
proof -
  have "(2003::int) \<le> 2004" by simp
  from ex_script [OF this] obtain p
    where p: "script ex_fit 2003 2004 ex_terra ex_aqua ex_data = Inr p" ..
  have n: "season_length p \<noteq> []"
    unfolding season_length_script [OF p] by simp
  then have "hd (season_length p) \<in> set (season_length p)" by simp
  from season_length_nonneg [OF p this, of 1] n p show ?thesis by (intro exI [of _ p]) simp
qed

lemma map_collection_set:
  "map_collection f xs = Inr ys \<Longrightarrow> y \<in> set ys \<Longrightarrow> \<exists>x \<in> set xs. f x = Inr y"
proof (induction xs arbitrary: ys)
  case Nil
  then show ?case by simp
next
  case (Cons x xs)
  from Cons.prems(1) obtain z zs where fx: "f x = Inr z"
    and r: "map_collection f xs = Inr zs" and ys: "ys = z # zs"
    by (auto split: sum.splits)
  show ?case
  proof (cases "y = z")
    case True
    with fx show ?thesis by simp
  next
    case False
    with Cons.prems(2) ys have "y \<in> set zs" by simp
    from Cons.IH [OF r this] show ?thesis by auto
  qed
qed

lemma yearlyCollection_masked:
  assumes "\<forall>img \<in> set terraCollection \<union> set aquaCollection. band img c = None"
    and "f \<in> set (yearlyCollection terraCollection aquaCollection)"
  shows "band f c = None"
proof -
  from assms(2) obtain p s where "f = maxVal (concatBands (p, s))"
    and "p \<in> set terraCollection" and "s \<in> set aquaCollection"
    by (auto simp: yearlyCollection_def Let_def set_innerJoin_apply)
  with assms(1) show ?thesis
    by (simp add: maxVal_none_valid concatBands_def)
qed

lemma doyCollection_masked:
  assumes "doyCollection yearly = Inr doys" and "\<forall>f \<in> set yearly. band f c = None"
    and "d \<in> set doys"
  shows "band d c = None"
proof -
  from assms(1) obtain first rest where Y: "yearly = first # rest"
    by (cases yearly) (simp_all add: doyCollection_def)
  from assms(1) obtain start where s: "time_start first = Some start"
    unfolding Y by (cases "time_start first") (simp_all add: doyCollection_def)
  have "doyCollection yearly = map_collection (returnDoy start) yearly"
    unfolding Y using s by (simp only: doyCollection_def list.case option.case)
  with assms(1) have "map_collection (returnDoy start) yearly = Inr doys" by simp
  from map_collection_set [OF this assms(3)] obtain x
    where x: "x \<in> set yearly" and r: "returnDoy start x = Inr d" by blast
  from x assms(2) have "band x c = None" by blast
  with r show ?thesis by (rule returnDoy_keeps_masked)
qed

lemma unmasked_values_Nil:
  "\<forall>i \<in> set col. band i c = None \<Longrightarrow> unmasked_values col c = []"
  by (induction col) (simp_all add: unmasked_values_def)

lemma unmasked_values_const:
  "\<forall>i \<in> set col. band i c = Some v \<Longrightarrow> unmasked_values col c = replicate (length col) v"
  by (induction col) (simp_all add: unmasked_values_def)

lemma year_summary_masked:
  assumes "year_summary terraCollection aquaCollection = Inr sma"
    and "\<forall>img \<in> set terraCollection \<union> set aquaCollection. band img c = None"
  shows "year_melt terraCollection aquaCollection c = Some 366 \<and>
         year_acc terraCollection aquaCollection c = Some 366"
proof -
  from assms(1) obtain doys
    where d: "doyCollection (yearlyCollection terraCollection aquaCollection) = Inr doys"
      and s: "sma = snowMeltAcc doys"
    by (auto simp: year_summary_def split: sum.splits)
  have Y: "\<forall>f \<in> set (yearlyCollection terraCollection aquaCollection). band f c = None"
  proof
    fix f assume "f \<in> set (yearlyCollection terraCollection aquaCollection)"
    then show "band f c = None" by (rule yearlyCollection_masked [OF assms(2)])
  qed
  have "\<forall>i \<in> set doys. band i c = None"
  proof
    fix i assume "i \<in> set doys"
    with d Y show "band i c = None" by (rule doyCollection_masked)
  qed
  then have "unmasked_values doys c = []" by (rule unmasked_values_Nil)
  with assms(1) s show ?thesis
    by (simp add: year_melt_def year_acc_def snowMeltAcc_band1 snowMeltAcc_band2)
qed

lemma median_list_const:
  assumes "vs \<noteq> []" and "\<forall>x \<in> set vs. x = v"
  shows "median_list vs = rat_of_int v"
proof -
  let ?s = "sort vs"
  have n: "0 < length ?s" using assms(1) by simp
  have e: "?s ! j = v" if "j < length ?s" for j
  proof -
    from that have "?s ! j \<in> set ?s" by (rule nth_mem)
    with assms(2) show ?thesis by simp
  qed
  from n have "?s ! (length ?s div 2) = v" by (intro e) simp
  moreover from n have "?s ! (length ?s div 2 - 1) = v" by (intro e) arith
  ultimately show ?thesis by (simp add: median_list_def Let_def)
qed

lemma all_years_masked:
  assumes "script fit t0 t1 terra aqua data = Inr p"
    and all: "\<forall>z \<in> {t0..t1}. \<forall>img \<in> set (terra z) \<union> set (aqua z). band img c = None"
  shows "snowFreeMedian (season_length p) c = Some 0 \<and> season_mask p c = Some 1"
proof -
  have z: "\<forall>i \<in> set (season_length p). band i c = Some 0"
  proof
    fix i assume "i \<in> set (season_length p)"
    then obtain z where z: "z \<in> {t0..t1}"
      and i: "i = \<lparr>time_start = Some z,
          band = subtract (year_acc (terra z) (aqua z)) (year_melt (terra z) (aqua z))\<rparr>"
      unfolding season_length_script [OF assms(1)] by auto
    from script_Inr(2) [OF assms(1)] z obtain sma
      where "year_summary (terra z) (aqua z) = Inr sma" by blast
    moreover from all z have "\<forall>img \<in> set (terra z) \<union> set (aqua z). band img c = None" by blast
    ultimately have "year_melt (terra z) (aqua z) c = Some 366 \<and>
         year_acc (terra z) (aqua z) c = Some 366" by (rule year_summary_masked)
    with i show "band i c = Some 0" by (simp add: subtract_def binop_def)
  qed
  have n: "season_length p \<noteq> []"
    unfolding season_length_script [OF assms(1)] using script_Inr(1) [OF assms(1)] by simp
  from z have u: "unmasked_values (season_length p) c = replicate (length (season_length p)) 0"
    by (rule unmasked_values_const)
  with n have ne: "unmasked_values (season_length p) c \<noteq> []" by simp
  from u have "\<forall>x \<in> set (unmasked_values (season_length p) c). x = 0" by simp
  with ne have "median_list (unmasked_values (season_length p) c) = rat_of_int 0"
    by (rule median_list_const)
  with ne have m: "snowFreeMedian (season_length p) c = Some 0"
    by (simp add: snowFreeMedian_def median_def Let_def)
  then have "season_mask p c = Some 1"
    unfolding script_Inr(6) [OF assms(1)] by (simp add: snowFreeMask_def lt_def expression_def)
  with m show ?thesis ..
qed

text \<open>
  C7, as amended. A cell that is masked in every image of both sensors in a year is
  masked in every fused image of that year; its melt and accumulation days are both
  366 and its season length is 0. If the cell is masked like this in every processed
  year, the median season length of the cell is 0, and since 0 is below 306 the season
  mask has the cell as 1: the check does not exclude it.
\<close>

theorem all_masked_cell:
  assumes "script fit t0 t1 terra aqua data = Inr p" and "y \<in> {t0..t1}"
    and "\<forall>img \<in> set (terra y) \<union> set (aqua y). band img c = None"
  shows "(\<forall>f \<in> set (yearlyCollection (terra y) (aqua y)). band f c = None) \<and>
         year_melt (terra y) (aqua y) c = Some 366 \<and>
         year_acc (terra y) (aqua y) c = Some 366 \<and>
         band (season_length p ! nat (y - t0)) c = Some 0 \<and>
         ((\<forall>z \<in> {t0..t1}. \<forall>img \<in> set (terra z) \<union> set (aqua z). band img c = None) \<longrightarrow>
            snowFreeMedian (season_length p) c = Some 0 \<and> season_mask p c = Some 1)"
proof (intro conjI impI)
  show "\<forall>f \<in> set (yearlyCollection (terra y) (aqua y)). band f c = None"
  proof
    fix f assume "f \<in> set (yearlyCollection (terra y) (aqua y))"
    then show "band f c = None" by (rule yearlyCollection_masked [OF assms(3)])
  qed
  from script_Inr(2) [OF assms(1)] assms(2) obtain sma
    where "year_summary (terra y) (aqua y) = Inr sma" by blast
  note M = year_summary_masked [OF this assms(3)]
  from M show "year_melt (terra y) (aqua y) c = Some 366" ..
  from M show "year_acc (terra y) (aqua y) c = Some 366" ..
  from season_length_cell [OF assms(1,2), of c] M
  show "band (season_length p ! nat (y - t0)) c = Some 0" by auto
next
  assume all: "\<forall>z \<in> {t0..t1}. \<forall>img \<in> set (terra z) \<union> set (aqua z). band img c = None"
  from all_years_masked [OF assms(1) all]
  show "snowFreeMedian (season_length p) c = Some 0" ..
next
  assume all: "\<forall>z \<in> {t0..t1}. \<forall>img \<in> set (terra z) \<union> set (aqua z). band img c = None"
  from all_years_masked [OF assms(1) all]
  show "season_mask p c = Some 1" ..
qed

theorem all_masked_cell_witness:
  "\<exists>p. script ex_fit 2003 2004 ex_terra ex_aqua ex_data = Inr p \<and>
       year_melt (ex_terra 2003) (ex_aqua 2003) 0 = Some 366 \<and>
       year_acc (ex_terra 2003) (ex_aqua 2003) 0 = Some 366 \<and>
       band (season_length p ! 0) 0 = Some 0 \<and>
       season_mask p 0 = Some 1"
proof -
  have "(2003::int) \<le> 2004" by simp
  from ex_script [OF this] obtain p
    where p: "script ex_fit 2003 2004 ex_terra ex_aqua ex_data = Inr p" ..
  have y: "(2003::int) \<in> {2003..2004}" by simp
  have a: "\<forall>img \<in> set (ex_terra z) \<union> set (ex_aqua z). band img 0 = None" for z
    by (simp add: ex_terra_def ex_aqua_def ex_image_def)
  have b: "\<forall>z \<in> {2003..2004}. \<forall>img \<in> set (ex_terra z) \<union> set (ex_aqua z). band img 0 = None"
    by (simp add: ex_terra_def ex_aqua_def ex_image_def)
  note T = all_masked_cell [OF p y a]
  from T have m: "year_melt (ex_terra 2003) (ex_aqua 2003) 0 = Some 366"
    by (elim conjE)
  from T have c: "year_acc (ex_terra 2003) (ex_aqua 2003) 0 = Some 366"
    by (elim conjE)
  from T have s: "band (season_length p ! nat (2003 - 2003)) 0 = Some 0"
    by (elim conjE)
  from T have "(\<forall>z \<in> {2003..2004}. \<forall>img \<in> set (ex_terra z) \<union> set (ex_aqua z). band img 0 = None) \<longrightarrow>
            snowFreeMedian (season_length p) 0 = Some 0 \<and> season_mask p 0 = Some 1"
    by (elim conjE)
  from this b have k: "season_mask p 0 = Some 1" by (elim impE conjE)
  from s have "band (season_length p ! 0) 0 = Some 0" by simp
  with p m c k show ?thesis by (intro exI [of _ p] conjI)
qed

lemma ex_var_yearlyCollection:
  "yearlyCollection (ex_var_terra y) (ex_var_aqua y) =
     (if y = 2003
      then [maxVal (concatBands (ex_image 0 None, ex_image 0 None)),
            maxVal (concatBands (ex_image 100 None, ex_image 100 None)),
            maxVal (concatBands (ex_image 320 None, ex_image 320 None))]
      else [maxVal (concatBands (ex_image 0 (Some 3), ex_image 0 (Some 3))),
            maxVal (concatBands (ex_image 100 (Some 80), ex_image 100 (Some 80))),
            maxVal (concatBands (ex_image 320 (Some 3), ex_image 320 (Some 3)))])"
  by (simp add: yearlyCollection_def ex_var_terra_def ex_var_aqua_def innerJoin_apply_def
      filterTimeEq_def ex_image_def msPerDay_def Let_def)

lemma ex_var_script: "\<exists>p. script ex_fit 2003 2005 ex_var_terra ex_var_aqua ex_data = Inr p"
  by (rule script_total) (simp_all add: ex_var_yearlyCollection)

lemma ex_var_year_2003:
  "year_melt (ex_var_terra 2003) (ex_var_aqua 2003) 1 = Some 366 \<and>
   year_acc (ex_var_terra 2003) (ex_var_aqua 2003) 1 = Some 366"
  by (simp add: year_melt_def year_acc_def year_summary_def doyCollection_def
      ex_var_yearlyCollection maxVal_time_start concatBands_def ex_image_def
      returnDoy_def replacement_def neq_def updateMask_def expression_def
      date_difference_day_def msPerDay_def toInt_def Let_def
      snowMeltAcc_def reduce_minMax_def unmask_def unmasked_values_def minMax_def maxVal_band)

lemma ex_var_year_later:
  "y \<noteq> 2003 \<Longrightarrow>
   year_melt (ex_var_terra y) (ex_var_aqua y) 1 = Some 1 \<and>
   year_acc (ex_var_terra y) (ex_var_aqua y) 1 = Some 321"
  by (simp add: year_melt_def year_acc_def year_summary_def doyCollection_def
      ex_var_yearlyCollection maxVal_time_start concatBands_def ex_image_def
      returnDoy_def replacement_def neq_def updateMask_def expression_def
      date_difference_day_def msPerDay_def toInt_def Let_def
      snowMeltAcc_def reduce_minMax_def unmask_def unmasked_values_def minMax_def maxVal_band)

text \<open>
  C7 without the condition on the other years fails: the season mask compares the
  median over all years, not the season length of the one year. In the run of 2003 to
  2005 below, cell 1 is masked in every image of both sensors in 2003, so its season
  length is 0 in 2003; in 2004 and 2005 it is 320, the median is 320, and the season
  mask has the cell as 0.
\<close>

theorem one_masked_year_counterexample:
  "map (\<lambda>img. band img 1) (ex_var_terra 2003 @ ex_var_aqua 2003) =
     [None, None, None, None, None, None] \<and>
   map (\<lambda>img. band img 1) (yearlyCollection (ex_var_terra 2003) (ex_var_aqua 2003)) =
     [None, None, None] \<and>
   year_melt (ex_var_terra 2003) (ex_var_aqua 2003) 1 = Some 366 \<and>
   year_acc (ex_var_terra 2003) (ex_var_aqua 2003) 1 = Some 366 \<and>
   season_mask_of (script ex_fit 2003 2005 ex_var_terra ex_var_aqua ex_data) 1 = Inr (Some 0)"
proof -
  from ex_var_script obtain p
    where p: "script ex_fit 2003 2005 ex_var_terra ex_var_aqua ex_data = Inr p" ..
  have u: "unmasked_values (season_length p) 1 = [0, 320, 320]"
    unfolding season_length_script [OF p]
    using ex_var_year_2003 ex_var_year_later [of 2004] ex_var_year_later [of 2005]
    by (simp add: unmasked_values_def subtract_def binop_def)
  have "median_list [0, 320, 320] = 320"
    by (simp add: median_list_def Let_def)
  with u have "snowFreeMedian (season_length p) 1 = Some 320"
    by (simp add: snowFreeMedian_def median_def Let_def)
  then have "season_mask p 1 = Some 0"
    unfolding script_Inr(6) [OF p] by (simp add: snowFreeMask_def lt_def expression_def)
  with p have m: "season_mask_of (script ex_fit 2003 2005 ex_var_terra ex_var_aqua ex_data) 1 = Inr (Some 0)"
    by (simp add: season_mask_of_def)
  have a: "map (\<lambda>img. band img 1) (ex_var_terra 2003 @ ex_var_aqua 2003) =
     [None, None, None, None, None, None]"
    by (simp add: ex_var_terra_def ex_var_aqua_def ex_image_def)
  have f: "map (\<lambda>img. band img 1) (yearlyCollection (ex_var_terra 2003) (ex_var_aqua 2003)) =
     [None, None, None]"
    by (simp add: ex_var_yearlyCollection maxVal_band concatBands_def ex_image_def)
  from a f m ex_var_year_2003 show ?thesis by simp
qed

lemma season_median_defined:
  assumes "script fit t0 t1 terra aqua data = Inr p"
  shows "\<exists>q. snowFreeMedian (season_length p) c = Some q"
proof -
  let ?i = "\<lparr>time_start = Some t0,
      band = subtract (year_acc (terra t0) (aqua t0)) (year_melt (terra t0) (aqua t0))\<rparr>"
  from script_Inr(1) [OF assms] have y: "t0 \<in> {t0..t1}" by simp
  then have i: "?i \<in> set (season_length p)"
    unfolding season_length_script [OF assms] by (simp add: image_iff)
  from script_Inr(2) [OF assms] y obtain sma
    where "year_summary (terra t0) (aqua t0) = Inr sma" by blast
  from year_summary_cells [OF this, of c] obtain v where "band ?i c = Some v"
    by (auto simp: subtract_def binop_def)
  with i have "v \<in> set (unmasked_values (season_length p) c)"
    unfolding set_unmasked_values by blast
  then have "unmasked_values (season_length p) c \<noteq> []" by auto
  then show ?thesis by (simp add: snowFreeMedian_def median_def Let_def)
qed

lemma lt_cell:
  "lt r k c = (case r c of None \<Rightarrow> None | Some q \<Rightarrow> Some (if q < k then 1 else 0))"
  by (simp add: lt_def expression_def split: option.splits)

lemma mask_cell:
  "mask data (lt r k) c =
     (case data c of None \<Rightarrow> None
      | Some d \<Rightarrow> (case r c of None \<Rightarrow> None
                   | Some q \<Rightarrow> Some (if d = 1 \<and> q < k then 1 else 0)))"
  by (simp add: mask_def waterMask_def eq_img_def multiply_def binop_def lt_cell expression_def
      split: option.splits)

lemma mask_with_cell:
  "m c = Some 1 \<Longrightarrow> mask_with r m c = Some (case r c of None \<Rightarrow> 0 | Some x \<Rightarrow> x)"
  "m c = Some 0 \<Longrightarrow> mask_with r m c = None"
  "m c = None \<Longrightarrow> mask_with r m c = None"
  by (simp_all add: mask_with_def)

text \<open>
  C8. In every cell the median season length is defined and the season mask is its
  comparison with 306, the final mask is 1 exactly where the land/water raster is 1 and the
  season mask is 1 (and 0 elsewhere, masked where either is masked), and the layer
  shown keeps the trend where the final mask is 1 and is masked everywhere else.
\<close>

theorem final_mask_is_and:
  assumes "script fit t0 t1 terra aqua data = Inr p"
  shows "(\<exists>q. snowFreeMedian (season_length p) c = Some q) \<and>
         season_mask p c =
           (case snowFreeMedian (season_length p) c of None \<Rightarrow> None
            | Some q \<Rightarrow> Some (if q < 306 then 1 else 0)) \<and>
         final_mask p c =
           (case data c of None \<Rightarrow> None
            | Some d \<Rightarrow> (case season_mask p c of None \<Rightarrow> None
                         | Some s \<Rightarrow> Some (if d = 1 \<and> s = 1 then 1 else 0))) \<and>
         band1 (shown p) c =
           (if final_mask p c = Some 1
            then Some (case band1 (trend p) c of None \<Rightarrow> 0 | Some x \<Rightarrow> x) else None) \<and>
         band2 (shown p) c =
           (if final_mask p c = Some 1
            then Some (case band2 (trend p) c of None \<Rightarrow> 0 | Some x \<Rightarrow> x) else None)"
proof -
  let ?q = "snowFreeMedian (season_length p)"
  have s: "season_mask p = lt ?q 306"
    unfolding script_Inr(6) [OF assms] by (simp add: snowFreeMask_def)
  have f: "final_mask p = mask data (lt ?q 306)"
    unfolding script_Inr(7) [OF assms] s ..
  have 1: "season_mask p c =
           (case ?q c of None \<Rightarrow> None | Some q \<Rightarrow> Some (if q < 306 then 1 else 0))"
    unfolding s by (rule lt_cell)
  have 2: "final_mask p c =
           (case data c of None \<Rightarrow> None
            | Some d \<Rightarrow> (case season_mask p c of None \<Rightarrow> None
                         | Some s \<Rightarrow> Some (if d = 1 \<and> s = 1 then 1 else 0)))"
    unfolding f mask_cell 1 by (simp split: option.splits)
  have v: "final_mask p c = Some 1 \<or> final_mask p c = Some 0 \<or> final_mask p c = None"
    unfolding f mask_cell by (simp split: option.splits)
  have 3: "mask_with r (final_mask p) c =
           (if final_mask p c = Some 1
            then Some (case r c of None \<Rightarrow> 0 | Some x \<Rightarrow> x) else None)" for r :: "('a, rat) raster"
    using v by (auto simp: mask_with_cell)
  have sh: "shown p = fit_layer (trend p) (final_mask p)" by (rule script_Inr(9) [OF assms])
  from season_median_defined [OF assms, of c] 1 2 3 show ?thesis
    unfolding sh by (simp add: fit_layer_def)
qed

theorem final_mask_is_and_witness:
  "\<exists>p. script ex_fit 2003 2004 ex_terra ex_aqua ex_data = Inr p \<and>
       season_mask p 0 = Some 1 \<and> final_mask p 0 = Some 1 \<and> band1 (shown p) 0 = Some 0"
proof -
  have "(2003::int) \<le> 2004" by simp
  from ex_script [OF this] obtain p
    where p: "script ex_fit 2003 2004 ex_terra ex_aqua ex_data = Inr p" ..
  have a: "\<forall>img \<in> set (ex_terra z) \<union> set (ex_aqua z). band img 0 = None" for z
    by (simp add: ex_terra_def ex_aqua_def ex_image_def)
  have b: "\<forall>z \<in> {2003..2004}. \<forall>img \<in> set (ex_terra z) \<union> set (ex_aqua z). band img 0 = None"
    by (simp add: ex_terra_def ex_aqua_def ex_image_def)
  have y: "(2003::int) \<in> {2003..2004}" by simp
  from all_years_masked [OF p b] have k: "season_mask p 0 = Some 1" ..
  have t: "band1 (trend p) 0 = None"
    unfolding script_Inr(8) [OF p] by (simp add: linearFit_def reduce_linearFit_def ex_fit_def Let_def)
  note T = final_mask_is_and [OF p, of 0]
  from T k have f: "final_mask p 0 = Some 1" by (simp add: ex_data_def)
  with T t have "band1 (shown p) 0 = Some 0" by simp
  with p k f show ?thesis by (intro exI [of _ p] conjI)
qed

section \<open>Applying the Event Encoder to its own result\<close>

text \<open>
  The encoder selects the band \<open>NDSI_Snow_Cover\<close> and reads its values as cover. The
  image it returns has one band, named \<open>constant\<close>, that holds day numbers.
\<close>

lemma toInt_day: "0 \<le> k \<Longrightarrow> k < 366 \<Longrightarrow>
  toInt (date_difference_day (start + k * msPerDay) start + 1) = k + 1"
proof -
  assume "0 \<le> k" and "k < 366"
  then have "toInt (rat_of_int (k + 1)) = k + 1" by (intro toInt_of_int) simp_all
  then show ?thesis by (simp add: date_difference_whole)
qed

lemma returnDoy_named_bandName:
  "returnDoy_named start img = Inr ev \<Longrightarrow> bandName ev = ''constant''"
  by (auto simp: returnDoy_named_def split: option.splits sum.splits)

lemma select_band_constant:
  "bandName ev = ''constant'' \<Longrightarrow> select_band ''NDSI_Snow_Cover'' ev = Inl BandNotFound"
  by (simp add: select_band_def)

lemma ex_returnDoy_named: "returnDoy_named 0 ex_fused_named = Inr ex_event_named"
proof -
  let ?i = "\<lparr>time_start = Some (99 * msPerDay),
             band = (\<lambda>c::nat. if c = 0 then None else Some (3::int))\<rparr>"
  have t: "time_start ?i = Some (0 + 99 * msPerDay)" by simp
  have d: "toInt (date_difference_day (0 + 99 * msPerDay) 0 + 1) = 99 + 1"
    by (rule toInt_day) simp_all
  have s: "select_band ''NDSI_Snow_Cover'' ex_fused_named = Inr ?i"
    by (simp add: select_band_def ex_fused_named_def)
  have "returnDoy_named 0 ex_fused_named =
      (case returnDoy 0 ?i of Inl e \<Rightarrow> Inl e
       | Inr ev \<Rightarrow> Inr \<lparr>time_start = time_start ev, band = band ev, bandName = ''constant''\<rparr>)"
    unfolding returnDoy_named_def s by (simp add: ex_fused_named_def)
  then show ?thesis
    unfolding returnDoy_band [OF t d]
    by (auto simp: ex_event_named_def fun_eq_iff)
qed

text \<open>
  C5 as the specification has it, that encoding an event image again gives the same
  image, fails. The image of day 100 with cover 3 in cell 1 is encoded as the day
  number 100 in that cell. A second pass over the event image does not return it: the
  pass fails, and with the timestamp of the day set again it fails because the image
  has no band \<open>NDSI_Snow_Cover\<close>.
\<close>

theorem second_pass_counterexample:
  "returnDoy_named 0 ex_fused_named = Inr ex_event_named \<and>
   band ex_event_named 1 = Some 100 \<and>
   returnDoy_named 0 ex_event_named \<noteq> Inr ex_event_named \<and>
   returnDoy_named 0 (ex_event_named\<lparr>time_start := time_start ex_fused_named\<rparr>) =
     Inl BandNotFound"
proof -
  have "returnDoy_named 0 ex_event_named = Inl NullDate"
    by (simp add: returnDoy_named_def ex_event_named_def)
  then have "returnDoy_named 0 ex_event_named \<noteq> Inr ex_event_named" by simp
  moreover have "returnDoy_named 0 (ex_event_named\<lparr>time_start := time_start ex_fused_named\<rparr>) =
     Inl BandNotFound"
    by (simp add: returnDoy_named_def select_band_def ex_event_named_def ex_fused_named_def)
  moreover have "band ex_event_named 1 = Some 100" by (simp add: ex_event_named_def)
  ultimately show ?thesis using ex_returnDoy_named by simp
qed

text \<open>
  C5, as amended. The encoder is not idempotent and cannot be run on its own result:
  the band of every image it returns is named \<open>constant\<close>, so a second pass fails on
  every event image, whatever the start, and also when the timestamp is set again,
  where it fails on selecting the band.
\<close>

theorem second_pass_fails:
  assumes "returnDoy_named start img = Inr ev"
  shows "bandName ev = ''constant'' \<and>
         (\<exists>e. returnDoy_named start2 ev = Inl e) \<and>
         returnDoy_named start2 (ev\<lparr>time_start := Some t\<rparr>) = Inl BandNotFound"
proof -
  from assms have n: "bandName ev = ''constant''" by (rule returnDoy_named_bandName)
  then have s: "select_band ''NDSI_Snow_Cover'' ev = Inl BandNotFound"
    by (rule select_band_constant)
  from n have "select_band ''NDSI_Snow_Cover'' (ev\<lparr>time_start := Some t\<rparr>) = Inl BandNotFound"
    by (simp add: select_band_def)
  then have 2: "returnDoy_named start2 (ev\<lparr>time_start := Some t\<rparr>) = Inl BandNotFound"
    by (simp add: returnDoy_named_def)
  from s have "\<exists>e. returnDoy_named start2 ev = Inl e"
    by (cases "time_start ev") (simp_all add: returnDoy_named_def)
  with n 2 show ?thesis by simp
qed

theorem second_pass_fails_witness:
  "returnDoy_named 0 ex_fused_named = Inr ex_event_named \<and>
   bandName ex_event_named = ''constant'' \<and>
   returnDoy_named 0 (ex_event_named\<lparr>time_start := Some (99 * msPerDay)\<rparr>) = Inl BandNotFound"
  using second_pass_fails [OF ex_returnDoy_named, of 0 "99 * msPerDay"] ex_returnDoy_named
  by simp

end
